theory Spec2Isabelle
  imports Main "HOL-Library.Word"
begin

section \<open>JavaScript values\<close>

text \<open>
  A JavaScript string is a sequence of UTF-16 code units. Literals of the source are
  ASCII and are written through \<open>str\<close>.
\<close>

type_synonym js_string = "16 word list"

definition str :: "string \<Rightarrow> js_string" where
  "str s = map (\<lambda>c. of_nat (of_char c)) s"

text \<open>
  \<open>String.prototype.trim\<close> removes the code units of WhiteSpace and LineTerminator
  from both ends: TAB, LF, VT, FF, CR, SP, NBSP, the space separators U+1680,
  U+2000..U+200A, U+202F, U+205F, U+3000, the separators U+2028 and U+2029, and U+FEFF.
\<close>

definition isWhiteSpace :: "16 word \<Rightarrow> bool" where
  "isWhiteSpace c \<longleftrightarrow>
     c \<in> set [0x9, 0xA, 0xB, 0xC, 0xD, 0x20, 0xA0, 0x1680,
              0x2000, 0x2001, 0x2002, 0x2003, 0x2004, 0x2005, 0x2006, 0x2007,
              0x2008, 0x2009, 0x200A, 0x2028, 0x2029, 0x202F, 0x205F, 0x3000, 0xFEFF]"

definition trim :: "js_string \<Rightarrow> js_string" where
  "trim s = rev (dropWhile isWhiteSpace (rev (dropWhile isWhiteSpace s)))"

text \<open>A string is truthy unless it is empty; \<open>undefined\<close> (\<open>None\<close>) is falsy.\<close>

definition truthy :: "js_string option \<Rightarrow> bool" where
  "truthy v = (case v of None \<Rightarrow> False | Some s \<Rightarrow> s \<noteq> [])"

text \<open>
  The values a caller can pass where the source expects a theme, and the values
  \<open>systemPrefersDarkMode\<close> can return.
\<close>

datatype js_value = JUndefined | JNull | JBool bool | JString js_string

datatype error = TypeError

text \<open>
  Number-to-string conversion of an integer (\<open>Date.now().toString()\<close>): the decimal
  digits, with a minus sign for a negative number. Clock readings stay below
  \<open>10^21\<close>, where JavaScript switches to exponent notation.
\<close>

fun digits :: "nat \<Rightarrow> js_string" where
  "digits n = (if n < 10 then [of_nat (48 + n)] else digits (n div 10) @ [of_nat (48 + n mod 10)])"

declare digits.simps [simp del]

definition toString :: "int \<Rightarrow> js_string" where
  "toString n = (if n < 0 then 0x2D # digits (nat (- n)) else digits (nat n))"

section \<open>Theme utilities\<close>

text \<open>\<open>themeClass\<close>: \<open>theme === 'dark' ? darkClass : lightClass\<close>, a strict comparison.\<close>

definition themeClass :: "js_value \<Rightarrow> 'a \<Rightarrow> 'a \<Rightarrow> 'a" where
  "themeClass theme lightClass darkClass =
     (if theme = JString (str ''dark'') then darkClass else lightClass)"

text \<open>
  The style of the document root, as the key-value store of custom properties that the
  design notes of the specification prescribe: \<open>setProperty\<close> stores a value under a
  property name, \<open>getPropertyValue\<close> reads it and yields the empty string for a property
  that is not set.
\<close>

type_synonym style_root = "js_string \<rightharpoonup> js_string"

definition setProperty :: "js_string \<Rightarrow> js_string \<Rightarrow> style_root \<Rightarrow> style_root" where
  "setProperty prop v root = root(prop \<mapsto> v)"

definition getPropertyValue :: "js_string \<Rightarrow> style_root \<Rightarrow> js_string" where
  "getPropertyValue prop root = (case root prop of None \<Rightarrow> [] | Some v \<Rightarrow> v)"

definition customProperty :: "js_string \<Rightarrow> js_string" where
  "customProperty name = str ''--'' @ name"

definition getCssVar :: "js_string \<Rightarrow> style_root \<Rightarrow> js_string" where
  "getCssVar name root = trim (getPropertyValue (customProperty name) root)"

definition setCssVar :: "js_string \<Rightarrow> js_string \<Rightarrow> style_root \<Rightarrow> style_root" where
  "setCssVar name v root = setProperty (customProperty name) v root"

subsection \<open>The host's media-query interface\<close>

text \<open>
  What \<open>window.matchMedia\<close> offers: nothing (the property is \<open>undefined\<close>), query
  lists with the legacy \<open>addListener\<close>/\<open>removeListener\<close> only, or query lists with
  \<open>addEventListener\<close>/\<open>removeEventListener\<close> as well.
\<close>

datatype media_api = NoMatchMedia | LegacyOnly | Modern

text \<open>
  A callback is identified by a number. A listener is the closure
  \<open>(e) => callback(e.matches)\<close>: its own identity, which is new at every registration,
  and the callback it wraps.
\<close>

type_synonym callback = nat
type_synonym listener = "nat \<times> callback"

text \<open>
  Every call of \<open>window.matchMedia\<close> returns a new query list, here its list of change
  listeners in registration order; a query list is referred to by its index. \<open>calls\<close>
  records every invocation of a listener with the \<open>matches\<close> value it passed on.
\<close>

record window =
  matchMedia :: media_api
  prefersDark :: bool
  queryLists :: "listener list list"
  nextClosure :: nat
  calls :: "(listener \<times> bool) list"

definition addEventListener :: "nat \<Rightarrow> listener \<Rightarrow> window \<Rightarrow> window" where
  "addEventListener mq l w =
     (let ls = queryLists w ! mq
      in w\<lparr>queryLists := (queryLists w)[mq := (if l \<in> set ls then ls else ls @ [l])]\<rparr>)"

definition removeEventListener :: "nat \<Rightarrow> listener \<Rightarrow> window \<Rightarrow> window" where
  "removeEventListener mq l w =
     w\<lparr>queryLists := (queryLists w)[mq := removeAll l (queryLists w ! mq)]\<rparr>"

text \<open>The legacy pair is specified as an alias of the event-target pair for \<open>change\<close>.\<close>

definition addListener :: "nat \<Rightarrow> listener \<Rightarrow> window \<Rightarrow> window" where
  "addListener mq l w = addEventListener mq l w"

definition removeListener :: "nat \<Rightarrow> listener \<Rightarrow> window \<Rightarrow> window" where
  "removeListener mq l w = removeEventListener mq l w"

text \<open>A color-scheme change: every listener of every query list is called with \<open>matches\<close>.\<close>

definition dispatchChange :: "bool \<Rightarrow> window \<Rightarrow> window" where
  "dispatchChange m w =
     w\<lparr>prefersDark := m,
       calls := calls w @ map (\<lambda>l. (l, m)) (concat (queryLists w))\<rparr>"

text \<open>
  \<open>systemPrefersDarkMode\<close>:
  \<open>window.matchMedia && window.matchMedia('(prefers-color-scheme: dark)').matches\<close>.
  The operator \<open>&&\<close> yields its left operand when that is falsy.
\<close>

definition systemPrefersDarkMode :: "window \<Rightarrow> js_value" where
  "systemPrefersDarkMode w =
     (case matchMedia w of
        NoMatchMedia \<Rightarrow> JUndefined
      | _ \<Rightarrow> JBool (prefersDark w))"

text \<open>The function that \<open>addColorSchemeListener\<close> returns, for query list \<open>mq\<close> and listener \<open>l\<close>.\<close>

definition removeColorSchemeListener :: "media_api \<Rightarrow> nat \<Rightarrow> listener \<Rightarrow> window \<Rightarrow> window" where
  "removeColorSchemeListener api mq l w =
     (if api = Modern then removeEventListener mq l w else removeListener mq l w)"

text \<open>
  \<open>addColorSchemeListener\<close>: calling \<open>window.matchMedia\<close> where it is \<open>undefined\<close> raises
  a TypeError. Otherwise a new query list and a new listener closure are created, the
  listener is registered through the interface the query list has, and the function that
  removes it is returned.
\<close>

definition addColorSchemeListener ::
  "callback \<Rightarrow> window \<Rightarrow> error + (window \<times> (window \<Rightarrow> window))" where
  "addColorSchemeListener cb w =
     (case matchMedia w of
        NoMatchMedia \<Rightarrow> Inl TypeError
      | api \<Rightarrow>
          (let mq = length (queryLists w);
               l = (nextClosure w, cb);
               w1 = w\<lparr>queryLists := queryLists w @ [[]], nextClosure := Suc (nextClosure w)\<rparr>;
               w2 = (if api = Modern then addEventListener mq l w1 else addListener mq l w1)
           in Inr (w2, removeColorSchemeListener api mq l)))"

text \<open>
  What can happen at the host afterwards: a color-scheme change, another registration,
  or a call of a function returned by some registration.
\<close>

datatype action = Change bool | Subscribe callback | Unsubscribe nat listener

fun step :: "action \<Rightarrow> window \<Rightarrow> window" where
  "step (Change m) w = dispatchChange m w"
| "step (Subscribe cb) w =
     (case addColorSchemeListener cb w of Inl _ \<Rightarrow> w | Inr (w', _) \<Rightarrow> w')"
| "step (Unsubscribe mq l) w = removeColorSchemeListener (matchMedia w) mq l w"

fun run :: "action list \<Rightarrow> window \<Rightarrow> window" where
  "run [] w = w"
| "run (a # as) w = run as (step a w)"

text \<open>Listener closures are created with increasing identities.\<close>

definition closures_allocated :: "window \<Rightarrow> bool" where
  "closures_allocated w \<longleftrightarrow> (\<forall>l \<in> set (concat (queryLists w)). fst l < nextClosure w)"

definition invocations_of :: "nat \<Rightarrow> window \<Rightarrow> (listener \<times> bool) list" where
  "invocations_of k w = filter (\<lambda>e. fst (fst e) = k) (calls w)"

definition invocations_of_callback :: "callback \<Rightarrow> window \<Rightarrow> (listener \<times> bool) list" where
  "invocations_of_callback cb w = filter (\<lambda>e. snd (fst e) = cb) (calls w)"

definition registered_callbacks :: "window \<Rightarrow> callback set" where
  "registered_callbacks w = snd ` set (concat (queryLists w))"

fun subscribes :: "callback \<Rightarrow> action \<Rightarrow> bool" where
  "subscribes cb (Subscribe cb') = (cb' = cb)"
| "subscribes cb _ = False"

text \<open>
  Two invariants of a listener closure: it is registered nowhere, and it is registered
  at one query list at most, as one listener.
\<close>

definition listener_gone :: "nat \<Rightarrow> window \<Rightarrow> bool" where
  "listener_gone k w \<longleftrightarrow>
     k < nextClosure w \<and> (\<forall>l \<in> set (concat (queryLists w)). fst l \<noteq> k)"

definition listener_only_at :: "nat \<Rightarrow> listener \<Rightarrow> window \<Rightarrow> bool" where
  "listener_only_at mq l w \<longleftrightarrow>
     fst l < nextClosure w \<and>
     (\<forall>i < length (queryLists w). \<forall>l' \<in> set (queryLists w ! i). fst l' = fst l \<longrightarrow> i = mq \<and> l' = l)"

text \<open>A callback that is registered through one listener closure at most.\<close>

definition callback_only_via :: "callback \<Rightarrow> nat \<Rightarrow> window \<Rightarrow> bool" where
  "callback_only_via cb k w \<longleftrightarrow>
     (\<forall>l \<in> set (concat (queryLists w)). snd l = cb \<longrightarrow> fst l = k)"

section \<open>The course player\<close>

subsection \<open>Data\<close>

record resource =
  res_name :: js_string
  res_url :: js_string
  res_type :: js_string

record lesson =
  lesson_id :: js_string
  title :: js_string
  videoUrl :: js_string
  duration :: js_string
  isCompleted :: bool
  resources :: "resource list"

text \<open>
  A comment. \<open>comment_timestamp\<close> holds the text that \<open>new Date().toISOString()\<close>
  returned.
\<close>

record comment =
  comment_id :: js_string
  comment_user :: js_string
  comment_timestamp :: js_string
  comment_text :: js_string

text \<open>
  Lesson objects live in a heap and are referred to by their index, so that the object
  held by the view and the objects of the catalog can be told apart. The five lesson
  objects of \<open>courseLessons\<close> are created first, in source order.
\<close>

definition initialHeap :: "lesson list" where
  "initialHeap =
     [\<lparr>lesson_id = str ''lesson-1'', title = str ''Introduction to Web Development'',
       videoUrl = str ''https://www.youtube.com/embed/pQN-pnXPaVg'', duration = str ''15:30'',
       isCompleted = True,
       resources = [\<lparr>res_name = str ''Lesson Slides'', res_url = str ''#'', res_type = str ''pdf''\<rparr>,
                    \<lparr>res_name = str ''Exercise Files'', res_url = str ''#'', res_type = str ''zip''\<rparr>]\<rparr>,
      \<lparr>lesson_id = str ''lesson-2'', title = str ''HTML Basics'',
       videoUrl = str ''https://www.youtube.com/embed/qz0aGYrrlhU'', duration = str ''20:00'',
       isCompleted = False,
       resources = [\<lparr>res_name = str ''HTML Cheat Sheet'', res_url = str ''#'', res_type = str ''pdf''\<rparr>]\<rparr>,
      \<lparr>lesson_id = str ''lesson-3'', title = str ''CSS Styling'',
       videoUrl = str ''https://www.youtube.com/embed/1PnVor36_40'', duration = str ''25:10'',
       isCompleted = False, resources = []\<rparr>,
      \<lparr>lesson_id = str ''js-lesson-1'', title = str ''JavaScript Introduction'',
       videoUrl = str ''https://www.youtube.com/embed/W6NZfCO5SIk'', duration = str ''18:45'',
       isCompleted = False,
       resources = [\<lparr>res_name = str ''JavaScript Cheatsheet'', res_url = str ''#'', res_type = str ''pdf''\<rparr>]\<rparr>,
      \<lparr>lesson_id = str ''js-lesson-2'', title = str ''Variables and Data Types'',
       videoUrl = str ''https://www.youtube.com/embed/hdI2bqOjy3c'', duration = str ''22:15'',
       isCompleted = False, resources = []\<rparr>]"

text \<open>The own properties of \<open>courseLessons\<close>: a course identifier and its array of lessons.\<close>

definition catalog :: "(js_string \<times> nat list) list" where
  "catalog = [(str ''web-dev-101'', [0, 1, 2]), (str ''javascript-basics'', [3, 4])]"

text \<open>
  \<open>courseLessons\<close> is an object literal, so a property that it does not own is looked
  up in \<open>Object.prototype\<close>. These are the properties found there; each is a function,
  except \<open>__proto__\<close>, which yields \<open>Object.prototype\<close> itself.
\<close>

definition objectPrototypeKeys :: "js_string list" where
  "objectPrototypeKeys =
     [str ''constructor'', str ''hasOwnProperty'', str ''isPrototypeOf'',
      str ''propertyIsEnumerable'', str ''toLocaleString'', str ''toString'', str ''valueOf'',
      str ''__proto__'', str ''__defineGetter__'', str ''__defineSetter__'',
      str ''__lookupGetter__'', str ''__lookupSetter__'']"

text \<open>
  The value of \<open>courseLessons[courseId]\<close>: \<open>undefined\<close>, an array of the catalog, or a
  member of \<open>Object.prototype\<close>. An \<open>undefined\<close> key is converted to the property name
  \<open>undefined\<close>.
\<close>

datatype catalog_entry = Absent | OwnArray "nat list" | Inherited

definition propertyKey :: "js_string option \<Rightarrow> js_string" where
  "propertyKey k = (case k of None \<Rightarrow> str ''undefined'' | Some s \<Rightarrow> s)"

definition courseLessons :: "js_string option \<Rightarrow> catalog_entry" where
  "courseLessons k =
     (case map_of catalog (propertyKey k) of
        Some rs \<Rightarrow> OwnArray rs
      | None \<Rightarrow> if propertyKey k \<in> set objectPrototypeKeys then Inherited else Absent)"

text \<open>The value of \<open>courseLessons[courseId] || []\<close>: an array, or a truthy value that is none.\<close>

datatype lessons_value = Arr "nat list" | NotArray

definition lessonsOf :: "js_string option \<Rightarrow> lessons_value" where
  "lessonsOf cid =
     (case courseLessons cid of
        Absent \<Rightarrow> Arr []
      | OwnArray rs \<Rightarrow> Arr rs
      | Inherited \<Rightarrow> NotArray)"

subsection \<open>Component state\<close>

datatype lesson_ref = Null | Undefined | Ref nat

record params =
  courseId :: "js_string option"
  lessonId :: "js_string option"

record player =
  heap :: "lesson list"
  activeLesson :: lesson_ref
  activeTab :: js_string
  notes_buf :: js_string
  comments :: "comment list"
  newComment :: js_string

definition initial :: player where
  "initial =
     \<lparr>heap = initialHeap, activeLesson = Null, activeTab = str ''notes'', notes_buf = [],
      comments = [], newComment = []\<rparr>"

definition deref :: "lesson list \<Rightarrow> nat \<Rightarrow> lesson option" where
  "deref h r = (if r < length h then Some (h ! r) else None)"

definition hasId :: "lesson list \<Rightarrow> js_string \<Rightarrow> nat \<Rightarrow> bool" where
  "hasId h lid r = (case deref h r of None \<Rightarrow> False | Some l \<Rightarrow> lesson_id l = lid)"

subsection \<open>The effect and the render\<close>

text \<open>
  \<open>lessons[0]\<close>: an index that is out of range reads \<open>undefined\<close>, and so does the
  property \<open>0\<close> of a value that is no array.
\<close>

definition lessonsFirst :: "lessons_value \<Rightarrow> lesson_ref" where
  "lessonsFirst lessons =
     (case lessons of
        Arr [] \<Rightarrow> Undefined
      | Arr (r # _) \<Rightarrow> Ref r
      | NotArray \<Rightarrow> Undefined)"

text \<open>
  \<open>lessons.find(lesson => lesson.id === lessonId)\<close>: the first element that has the
  identifier, or \<open>undefined\<close>. A value that is no array has no \<open>find\<close>, so that the call
  raises a TypeError.
\<close>

definition lessonsFind :: "lesson list \<Rightarrow> js_string \<Rightarrow> lessons_value \<Rightarrow> error + lesson_ref" where
  "lessonsFind h lid lessons =
     (case lessons of
        Arr rs \<Rightarrow> Inr (case find (hasId h lid) rs of None \<Rightarrow> Undefined | Some r \<Rightarrow> Ref r)
      | NotArray \<Rightarrow> Inl TypeError)"

text \<open>
  The effect: \<open>initialLesson = lessonId ? lessons.find(...) : lessons[0]\<close>, then
  \<open>setActiveLesson(initialLesson)\<close>.
\<close>

definition useEffect :: "params \<Rightarrow> player \<Rightarrow> error + player" where
  "useEffect p w =
     (case (case lessonId p of
              Some lid \<Rightarrow>
                if lid \<noteq> [] then lessonsFind (heap w) lid (lessonsOf (courseId p))
                else Inr (lessonsFirst (lessonsOf (courseId p)))
            | None \<Rightarrow> Inr (lessonsFirst (lessonsOf (courseId p)))) of
        Inl e \<Rightarrow> Inl e
      | Inr initialLesson \<Rightarrow> Inr (w\<lparr>activeLesson := initialLesson\<rparr>))"

datatype view = CourseNotFound | LessonNotFound | Player nat

text \<open>
  The render: the two early returns, then the player, whose sidebar calls \<open>lessons.map\<close>
  and so raises a TypeError when \<open>lessons\<close> is no array.
\<close>

definition render :: "params \<Rightarrow> player \<Rightarrow> error + view" where
  "render p w =
     (if \<not> truthy (courseId p) \<or> courseLessons (courseId p) = Absent then Inr CourseNotFound
      else
        (case activeLesson w of
           Ref r \<Rightarrow>
             (case lessonsOf (courseId p) of
                Arr rs \<Rightarrow> Inr (Player r)
              | NotArray \<Rightarrow> Inl TypeError)
         | _ \<Rightarrow> Inr LessonNotFound))"

text \<open>
  The first mount, and a render of the mounted component at which a dependency of the
  effect has changed: the component renders with the state it has, the effect runs, and
  the component renders again with the state the effect has set. An exception of either
  ends the sequence.
\<close>

definition navigate :: "params \<Rightarrow> player \<Rightarrow> error + (view \<times> player)" where
  "navigate p w =
     (case render p w of
        Inl e \<Rightarrow> Inl e
      | Inr _ \<Rightarrow>
          (case useEffect p w of
             Inl e \<Rightarrow> Inl e
           | Inr w' \<Rightarrow>
               (case render p w' of
                  Inl e \<Rightarrow> Inl e
                | Inr v \<Rightarrow> Inr (v, w'))))"

text \<open>
  The dependency array of the effect is \<open>[courseId, lessonId, lessons]\<close>. Between two
  renders of the mounted component, \<open>prev\<close> the parameters of the earlier one, the
  identifiers are compared as values and \<open>lessons\<close> as a reference: for the same course
  identifier \<open>courseLessons[courseId]\<close> is the same object, but where it is \<open>undefined\<close>
  the array \<open>[]\<close> is a new one at every render.
\<close>

definition depsChanged :: "params \<Rightarrow> params \<Rightarrow> bool" where
  "depsChanged prev p \<longleftrightarrow>
     courseId p \<noteq> courseId prev \<or> lessonId p \<noteq> lessonId prev \<or>
     courseLessons (courseId p) = Absent"

text \<open>
  A render of the mounted component with parameters \<open>p\<close>, after one with the parameters
  \<open>prev\<close>: the effect runs only when one of its dependencies has changed; otherwise the
  component renders with the state it has.
\<close>

definition rerender :: "params \<Rightarrow> params \<Rightarrow> player \<Rightarrow> error + (view \<times> player)" where
  "rerender prev p w =
     (if depsChanged prev p then navigate p w
      else (case render p w of Inl e \<Rightarrow> Inl e | Inr v \<Rightarrow> Inr (v, w)))"

subsection \<open>Event handlers\<close>

text \<open>
  \<open>handleLessonComplete\<close>: \<open>setActiveLesson(prev => ({ ...prev, isCompleted:
  !prev.isCompleted }))\<close>. The spread creates a new object; reading a property of \<open>null\<close>
  or \<open>undefined\<close> raises a TypeError.
\<close>

definition handleLessonComplete :: "player \<Rightarrow> error + player" where
  "handleLessonComplete w =
     (case activeLesson w of
        Ref r \<Rightarrow>
          (case deref (heap w) r of
             Some prev \<Rightarrow>
               Inr (w\<lparr>heap := heap w @ [prev\<lparr>isCompleted := \<not> isCompleted prev\<rparr>],
                      activeLesson := Ref (length (heap w))\<rparr>)
           | None \<Rightarrow> Inl TypeError)
      | _ \<Rightarrow> Inl TypeError)"

text \<open>
  \<open>handlePostComment\<close>, with the two readings of the clock it takes: \<open>now\<close> is the
  value of \<open>Date.now()\<close>, \<open>isoNow\<close> the value of \<open>new Date().toISOString()\<close>. A string is
  truthy when it is not empty. \<open>e.preventDefault()\<close> acts on the event only.
\<close>

definition handlePostComment :: "int \<Rightarrow> js_string \<Rightarrow> player \<Rightarrow> player" where
  "handlePostComment now isoNow w =
     (if trim (newComment w) \<noteq> [] then
        w\<lparr>comments := comments w @
             [\<lparr>comment_id = toString now, comment_user = str ''Current User'',
               comment_timestamp = isoNow, comment_text = trim (newComment w)\<rparr>],
          newComment := []\<rparr>
      else w)"

text \<open>The catalog's lesson objects are allocated and hold what the source gives them.\<close>

definition catalog_intact :: "player \<Rightarrow> bool" where
  "catalog_intact w \<longleftrightarrow> take (length initialHeap) (heap w) = initialHeap"

text \<open>The lesson object that the view holds, if it holds one.\<close>

definition held :: "player \<Rightarrow> lesson option" where
  "held w = (case activeLesson w of Ref r \<Rightarrow> deref (heap w) r | _ \<Rightarrow> None)"

section \<open>Properties of the theme utilities\<close>

text \<open>
  C9: \<open>themeClass\<close> returns the dark value when the theme is the string \<open>dark\<close> and the
  light value for every other theme value, string or not. It is a total function: there
  is no input on which it fails.
\<close>

theorem themeClass_dark_else_light:
  "themeClass (JString (str ''dark'')) lightClass darkClass = darkClass \<and>
   (\<forall>theme. theme \<noteq> JString (str ''dark'') \<longrightarrow>
      themeClass theme lightClass darkClass = lightClass)"
  by (simp add: themeClass_def)

theorem themeClass_dark_else_light_witness:
  "JString (str ''light'') \<noteq> JString (str ''dark'') \<and>
   themeClass (JString (str ''dark'')) ''a'' ''b'' = ''b'' \<and>
   themeClass (JString (str ''light'')) ''a'' ''b'' = ''a'' \<and>
   themeClass JUndefined ''a'' ''b'' = ''a''"
  using themeClass_dark_else_light [of "''a''" "''b''"] by (simp add: str_def)

text \<open>
  C8: over the key-value store of the document root's custom properties, reading a
  variable with \<open>getCssVar\<close> after \<open>setCssVar\<close> has set it returns the value that was
  set, trimmed.
\<close>

theorem setCssVar_getCssVar_roundtrip:
  "getCssVar name (setCssVar name v root) = trim v"
  by (simp add: getCssVar_def setCssVar_def setProperty_def getPropertyValue_def)

text \<open>
  C7: where \<open>window.matchMedia\<close> is missing, \<open>systemPrefersDarkMode\<close> does not fail,
  but what it returns is \<open>undefined\<close>, the value of the left operand of \<open>&&\<close>, and not
  the boolean \<open>false\<close> that its documentation announces.
\<close>

theorem systemPrefersDarkMode_unavailable_undefined:
  "systemPrefersDarkMode
     \<lparr>matchMedia = NoMatchMedia, prefersDark = False, queryLists = [], nextClosure = 0,
      calls = []\<rparr> = JUndefined \<and>
   JUndefined \<noteq> JBool False"
  by (simp add: systemPrefersDarkMode_def)

text \<open>
  The same holds at every host without \<open>window.matchMedia\<close>; where the facility is
  there, the result is the boolean answer of the query.
\<close>

lemma systemPrefersDarkMode_unavailable:
  "matchMedia w = NoMatchMedia \<Longrightarrow> systemPrefersDarkMode w = JUndefined"
  by (simp add: systemPrefersDarkMode_def)

lemma systemPrefersDarkMode_available:
  "matchMedia w \<noteq> NoMatchMedia \<Longrightarrow> systemPrefersDarkMode w = JBool (prefersDark w)"
  by (cases "matchMedia w") (simp_all add: systemPrefersDarkMode_def)

subsection \<open>Color-scheme listeners\<close>

text \<open>
  What a registration, a removal and a color-scheme change do to the host.
\<close>

lemma addColorSchemeListener_Inr:
  assumes "addColorSchemeListener cb w = Inr (w', u)"
  shows "queryLists w' = queryLists w @ [[(nextClosure w, cb)]]"
    and "nextClosure w' = Suc (nextClosure w)"
    and "calls w' = calls w"
    and "matchMedia w' = matchMedia w"
    and "u = removeColorSchemeListener (matchMedia w) (length (queryLists w)) (nextClosure w, cb)"
  using assms
  by (auto simp add: addColorSchemeListener_def addEventListener_def addListener_def Let_def
      split: media_api.splits)

lemma removeColorSchemeListener_fields:
  "queryLists (removeColorSchemeListener api mq l w) =
     (queryLists w)[mq := removeAll l (queryLists w ! mq)]"
  "nextClosure (removeColorSchemeListener api mq l w) = nextClosure w"
  "calls (removeColorSchemeListener api mq l w) = calls w"
  "matchMedia (removeColorSchemeListener api mq l w) = matchMedia w"
  by (simp_all add: removeColorSchemeListener_def removeEventListener_def removeListener_def)

lemma dispatchChange_fields:
  "queryLists (dispatchChange m w) = queryLists w"
  "nextClosure (dispatchChange m w) = nextClosure w"
  "calls (dispatchChange m w) = calls w @ map (\<lambda>l. (l, m)) (concat (queryLists w))"
  by (simp_all add: dispatchChange_def)

lemma concat_update_subset:
  "set (concat (qs[i := ys])) \<subseteq> set ys \<union> set (concat qs)"
proof
  fix x
  assume "x \<in> set (concat (qs[i := ys]))"
  then obtain zs where "zs \<in> set (qs[i := ys])" and "x \<in> set zs"
    by auto
  moreover have "set (qs[i := ys]) \<subseteq> insert ys (set qs)"
    by (rule set_update_subset_insert)
  ultimately show "x \<in> set ys \<union> set (concat qs)"
    by auto
qed

lemma removeAll_update_subset:
  "set (concat (qs[i := removeAll l (qs ! i)])) \<subseteq> set (concat qs)"
proof (cases "i < length qs")
  case True
  then have "set (removeAll l (qs ! i)) \<subseteq> set (concat qs)"
    by auto
  then show ?thesis
    using concat_update_subset [of qs i "removeAll l (qs ! i)"] by blast
next
  case False
  then have "qs[i := removeAll l (qs ! i)] = qs"
    by (simp add: list_update_beyond)
  then show ?thesis by simp
qed

lemma in_concat_nth:
  assumes "x \<in> set (concat qs)"
  obtains i where "i < length qs" and "x \<in> set (qs ! i)"
proof -
  obtain zs where "zs \<in> set qs" and "x \<in> set zs"
    using assms by auto
  then show thesis
    using that by (auto simp add: in_set_conv_nth)
qed

lemma only_atI:
  assumes "fst l < nextClosure w"
    and "\<And>i l'. i < length (queryLists w) \<Longrightarrow> l' \<in> set (queryLists w ! i) \<Longrightarrow>
           fst l' = fst l \<Longrightarrow> i = mq \<and> l' = l"
  shows "listener_only_at mq l w"
  using assms unfolding listener_only_at_def by blast

lemma only_atD:
  assumes "listener_only_at mq l w"
  shows "fst l < nextClosure w"
    and "i < length (queryLists w) \<Longrightarrow> l' \<in> set (queryLists w ! i) \<Longrightarrow>
           fst l' = fst l \<Longrightarrow> i = mq \<and> l' = l"
  using assms unfolding listener_only_at_def by blast+

lemma step_gone:
  assumes "listener_gone k w"
  shows "listener_gone k (step a w)" and "invocations_of k (step a w) = invocations_of k w"
proof -
  have "listener_gone k (step a w) \<and> invocations_of k (step a w) = invocations_of k w"
  proof (cases a)
    case (Change m)
    have "filter (\<lambda>e. fst (fst e) = k) (map (\<lambda>l. (l, m)) (concat (queryLists w))) = []"
      using assms by (auto simp add: listener_gone_def filter_empty_conv)
    then show ?thesis
      using assms Change by (simp add: listener_gone_def invocations_of_def dispatchChange_fields)
  next
    case (Subscribe cb)
    show ?thesis
    proof (cases "addColorSchemeListener cb w")
      case (Inl e)
      then show ?thesis using assms Subscribe by simp
    next
      case (Inr r)
      obtain w' u where r: "r = (w', u)" by (cases r)
      note f = addColorSchemeListener_Inr [OF Inr [unfolded r]]
      show ?thesis
        using assms Subscribe Inr r f(1-3)
        by (auto simp add: listener_gone_def invocations_of_def)
    qed
  next
    case (Unsubscribe mq l)
    then show ?thesis
      using assms removeAll_update_subset [of "queryLists w" mq l]
      by (auto simp add: listener_gone_def invocations_of_def removeColorSchemeListener_fields)
  qed
  then show "listener_gone k (step a w)" and "invocations_of k (step a w) = invocations_of k w"
    by simp_all
qed

lemma run_gone:
  "listener_gone k w \<Longrightarrow>
     listener_gone k (run as w) \<and> invocations_of k (run as w) = invocations_of k w"
proof (induction as arbitrary: w)
  case Nil
  then show ?case by simp
next
  case (Cons a as)
  then show ?case
    using step_gone [of k w a] by simp
qed

lemma step_only_at:
  assumes "listener_only_at mq l w"
  shows "listener_only_at mq l (step a w)"
proof (cases a)
  case (Change m)
  then show ?thesis
    using assms by (simp add: listener_only_at_def dispatchChange_fields)
next
  case (Subscribe cb)
  show ?thesis
  proof (cases "addColorSchemeListener cb w")
    case (Inl e)
    then show ?thesis using assms Subscribe by simp
  next
    case (Inr r)
    obtain w' u where r: "r = (w', u)" by (cases r)
    note f = addColorSchemeListener_Inr [OF Inr [unfolded r]]
    have "listener_only_at mq l w'"
    proof (rule only_atI)
      show "fst l < nextClosure w'"
        using only_atD(1) [OF assms] f(2) by simp
    next
      fix i l'
      assume i: "i < length (queryLists w')" and l': "l' \<in> set (queryLists w' ! i)"
        and k: "fst l' = fst l"
      show "i = mq \<and> l' = l"
      proof (cases "i < length (queryLists w)")
        case True
        then have "l' \<in> set (queryLists w ! i)"
          using l' f(1) by (simp add: nth_append)
        then show ?thesis
          using only_atD(2) [OF assms True] k by simp
      next
        case False
        then have "l' = (nextClosure w, cb)"
          using i l' f(1) by (simp add: nth_append less_Suc_eq)
        then show ?thesis
          using only_atD(1) [OF assms] k by simp
      qed
    qed
    then show ?thesis
      using Subscribe Inr r by simp
  qed
next
  case (Unsubscribe mq' l')
  have "listener_only_at mq l (removeColorSchemeListener (matchMedia w) mq' l' w)"
  proof (rule only_atI)
    show "fst l < nextClosure (removeColorSchemeListener (matchMedia w) mq' l' w)"
      using only_atD(1) [OF assms] by (simp add: removeColorSchemeListener_fields)
  next
    fix i x
    assume i: "i < length (queryLists (removeColorSchemeListener (matchMedia w) mq' l' w))"
      and x: "x \<in> set (queryLists (removeColorSchemeListener (matchMedia w) mq' l' w) ! i)"
      and k: "fst x = fst l"
    have i': "i < length (queryLists w)"
      using i by (simp add: removeColorSchemeListener_fields)
    have "x \<in> set (queryLists w ! i)"
      using i' x by (cases "i = mq'") (auto simp add: removeColorSchemeListener_fields)
    then show "i = mq \<and> x = l"
      using only_atD(2) [OF assms i'] k by simp
  qed
  then show ?thesis
    using Unsubscribe by simp
qed

lemma run_only_at: "listener_only_at mq l w \<Longrightarrow> listener_only_at mq l (run as w)"
  by (induction as arbitrary: w) (simp_all add: step_only_at)

lemma registered_only_at:
  assumes "closures_allocated w" and "addColorSchemeListener cb w = Inr (w', u)"
  shows "listener_only_at (length (queryLists w)) (nextClosure w, cb) w'"
proof (rule only_atI)
  note f = addColorSchemeListener_Inr [OF assms(2)]
  show "fst (nextClosure w, cb) < nextClosure w'"
    using f(2) by simp
  fix i l'
  assume i: "i < length (queryLists w')" and l': "l' \<in> set (queryLists w' ! i)"
    and k: "fst l' = fst (nextClosure w, cb)"
  show "i = length (queryLists w) \<and> l' = (nextClosure w, cb)"
  proof (cases "i < length (queryLists w)")
    case True
    then have "queryLists w ! i \<in> set (queryLists w)" and "l' \<in> set (queryLists w ! i)"
      using l' f(1) by (simp_all add: nth_append)
    then have "l' \<in> set (concat (queryLists w))"
      by auto
    then have "fst l' < nextClosure w"
      using assms(1) unfolding closures_allocated_def by blast
    then show ?thesis using k by simp
  next
    case False
    then show ?thesis
      using i l' f(1) by (simp add: nth_append less_Suc_eq)
  qed
qed

lemma removed_gone:
  assumes "listener_only_at mq l w"
  shows "listener_gone (fst l) (removeColorSchemeListener api mq l w)"
  unfolding listener_gone_def
proof (intro conjI ballI)
  show "fst l < nextClosure (removeColorSchemeListener api mq l w)"
    using only_atD(1) [OF assms] by (simp add: removeColorSchemeListener_fields)
  fix x
  assume "x \<in> set (concat (queryLists (removeColorSchemeListener api mq l w)))"
  then obtain i where i: "i < length (queryLists (removeColorSchemeListener api mq l w))"
    and x: "x \<in> set (queryLists (removeColorSchemeListener api mq l w) ! i)"
    by (rule in_concat_nth)
  have i': "i < length (queryLists w)"
    using i by (simp add: removeColorSchemeListener_fields)
  show "fst x \<noteq> fst l"
  proof
    assume k: "fst x = fst l"
    have "x \<in> set (queryLists w ! i)"
      using i' x by (cases "i = mq") (auto simp add: removeColorSchemeListener_fields)
    then have "i = mq \<and> x = l"
      using only_atD(2) [OF assms i'] k by simp
    then show False
      using i' x by (simp add: removeColorSchemeListener_fields)
  qed
qed

lemma step_callback_free:
  assumes "cb \<notin> registered_callbacks w" and "\<not> subscribes cb a"
  shows "cb \<notin> registered_callbacks (step a w) \<and>
         invocations_of_callback cb (step a w) = invocations_of_callback cb w"
proof (cases a)
  case (Change m)
  have "filter (\<lambda>e. snd (fst e) = cb) (map (\<lambda>l. (l, m)) (concat (queryLists w))) = []"
    using assms(1) by (auto simp add: registered_callbacks_def filter_empty_conv)
  then show ?thesis
    using assms(1) Change
    by (simp add: registered_callbacks_def invocations_of_callback_def dispatchChange_fields)
next
  case (Subscribe cb')
  show ?thesis
  proof (cases "addColorSchemeListener cb' w")
    case (Inl e)
    then show ?thesis using assms(1) Subscribe by simp
  next
    case (Inr r)
    obtain w' u where r: "r = (w', u)" by (cases r)
    note f = addColorSchemeListener_Inr [OF Inr [unfolded r]]
    show ?thesis
      using assms Subscribe Inr r f(1-3)
      by (auto simp add: registered_callbacks_def invocations_of_callback_def)
  qed
next
  case (Unsubscribe mq l)
  have "registered_callbacks (removeColorSchemeListener (matchMedia w) mq l w) \<subseteq>
      registered_callbacks w"
    unfolding registered_callbacks_def removeColorSchemeListener_fields
    by (rule image_mono) (rule removeAll_update_subset)
  then show ?thesis
    using assms(1) Unsubscribe
    by (auto simp add: invocations_of_callback_def removeColorSchemeListener_fields)
qed

lemma run_callback_free:
  "cb \<notin> registered_callbacks w \<Longrightarrow> \<forall>a \<in> set as. \<not> subscribes cb a \<Longrightarrow>
     invocations_of_callback cb (run as w) = invocations_of_callback cb w"
proof (induction as arbitrary: w)
  case Nil
  then show ?case by simp
next
  case (Cons a as)
  then show ?case
    using step_callback_free [of cb w a] by simp
qed

lemma step_allocated: "closures_allocated w \<Longrightarrow> closures_allocated (step a w)"
proof (cases a)
  case (Change m)
  assume "closures_allocated w"
  then show ?thesis
    using Change by (simp add: closures_allocated_def dispatchChange_fields)
next
  case (Subscribe cb)
  assume a: "closures_allocated w"
  show ?thesis
  proof (cases "addColorSchemeListener cb w")
    case (Inl e)
    then show ?thesis using a Subscribe by simp
  next
    case (Inr r)
    obtain w' u where r: "r = (w', u)" by (cases r)
    note f = addColorSchemeListener_Inr [OF Inr [unfolded r]]
    show ?thesis
      using a Subscribe Inr r f(1,2) by (auto simp add: closures_allocated_def less_Suc_eq)
  qed
next
  case (Unsubscribe mq l)
  assume "closures_allocated w"
  then show ?thesis
    using Unsubscribe removeAll_update_subset [of "queryLists w" mq l]
    by (auto simp add: closures_allocated_def removeColorSchemeListener_fields)
qed

lemma registered_is_called:
  assumes "addColorSchemeListener cb w = Inr (w', u)"
  shows "((nextClosure w, cb), m) \<in> set (calls (step (Change m) w'))"
  using addColorSchemeListener_Inr(1) [OF assms] by (simp add: dispatchChange_fields)

text \<open>
  A callback that no other listener wraps stays so while it is not registered again, and
  is registered nowhere once its one listener is gone.
\<close>

lemma removed_only_via:
  assumes "callback_only_via cb k w"
  shows "callback_only_via cb k (removeColorSchemeListener api mq l w)"
  using assms removeAll_update_subset [of "queryLists w" mq l]
  unfolding callback_only_via_def by (auto simp add: removeColorSchemeListener_fields)

lemma step_only_via:
  assumes "callback_only_via cb k w" and "\<not> subscribes cb a"
  shows "callback_only_via cb k (step a w)"
proof (cases a)
  case (Change m)
  then show ?thesis
    using assms(1) by (simp add: callback_only_via_def dispatchChange_fields)
next
  case (Subscribe cb')
  show ?thesis
  proof (cases "addColorSchemeListener cb' w")
    case (Inl e)
    then show ?thesis using assms(1) Subscribe by simp
  next
    case (Inr r)
    obtain w' u where r: "r = (w', u)" by (cases r)
    note f = addColorSchemeListener_Inr [OF Inr [unfolded r]]
    show ?thesis
      using assms Subscribe Inr r f(1) by (auto simp add: callback_only_via_def)
  qed
next
  case (Unsubscribe mq l)
  then show ?thesis
    using removed_only_via [OF assms(1)] by simp
qed

lemma run_only_via:
  "callback_only_via cb k w \<Longrightarrow> \<forall>a \<in> set as. \<not> subscribes cb a \<Longrightarrow>
     callback_only_via cb k (run as w)"
proof (induction as arbitrary: w)
  case Nil
  then show ?case by simp
next
  case (Cons a as)
  then show ?case
    using step_only_via [of cb k w a] by simp
qed

lemma registered_only_via:
  assumes "addColorSchemeListener cb w = Inr (w', u)" and "cb \<notin> registered_callbacks w"
  shows "callback_only_via cb (nextClosure w) w'"
  using addColorSchemeListener_Inr(1) [OF assms(1)] assms(2)
  by (auto simp add: callback_only_via_def registered_callbacks_def)

lemma gone_only_via_free:
  assumes "listener_gone k w" and "callback_only_via cb k w"
  shows "cb \<notin> registered_callbacks w"
  using assms unfolding listener_gone_def callback_only_via_def registered_callbacks_def
  by auto

text \<open>
  C6, as the code has it: after a successful registration of a callback, whatever happens
  at the host between the registration and the call of the returned function and
  whatever happens afterwards (changes of the color scheme, other registrations, other
  removals), the listener of this registration is not called again: its invocations stay
  those made before the removal. When the callback has no other registration, none in
  place at the registration and none made later, the callback itself is not called again
  either. This holds on the legacy and on the modern path.
\<close>

theorem unsubscribed_callback_not_called:
  assumes "closures_allocated w0" and "addColorSchemeListener cb w0 = Inr (w1, unsubscribe)"
  shows "invocations_of (nextClosure w0) (run later (unsubscribe (run between w1))) =
           invocations_of (nextClosure w0) (run between w1) \<and>
         (cb \<notin> registered_callbacks w0 \<and> (\<forall>a \<in> set between. \<not> subscribes cb a) \<and>
          (\<forall>a \<in> set later. \<not> subscribes cb a) \<longrightarrow>
            invocations_of_callback cb (run later (unsubscribe (run between w1))) =
              invocations_of_callback cb (run between w1))"
proof -
  let ?mq = "length (queryLists w0)"
  let ?k = "nextClosure w0"
  let ?x = "run between w1"
  have u: "unsubscribe = removeColorSchemeListener (matchMedia w0) ?mq (?k, cb)"
    by (rule addColorSchemeListener_Inr(5) [OF assms(2)])
  have c: "calls (unsubscribe ?x) = calls ?x"
    unfolding u by (rule removeColorSchemeListener_fields(3))
  have "listener_only_at ?mq (?k, cb) w1"
    by (rule registered_only_at [OF assms])
  then have "listener_only_at ?mq (?k, cb) ?x"
    by (rule run_only_at)
  then have "listener_gone (fst (?k, cb)) (unsubscribe ?x)"
    unfolding u by (rule removed_gone)
  then have g: "listener_gone ?k (unsubscribe ?x)"
    by simp
  have 1: "invocations_of ?k (run later (unsubscribe ?x)) = invocations_of ?k ?x"
    using run_gone [OF g, of later] c by (simp add: invocations_of_def)
  have 2: "invocations_of_callback cb (run later (unsubscribe ?x)) = invocations_of_callback cb ?x"
    if f: "cb \<notin> registered_callbacks w0" and b: "\<forall>a \<in> set between. \<not> subscribes cb a"
      and l: "\<forall>a \<in> set later. \<not> subscribes cb a"
  proof -
    have "callback_only_via cb ?k w1"
      by (rule registered_only_via [OF assms(2) f])
    then have "callback_only_via cb ?k ?x"
      using b by (rule run_only_via)
    then have "callback_only_via cb ?k (unsubscribe ?x)"
      unfolding u by (rule removed_only_via)
    then have "cb \<notin> registered_callbacks (unsubscribe ?x)"
      by (rule gone_only_via_free [OF g])
    then have "invocations_of_callback cb (run later (unsubscribe ?x)) =
        invocations_of_callback cb (unsubscribe ?x)"
      using l by (rule run_callback_free)
    then show ?thesis
      using c by (simp add: invocations_of_callback_def)
  qed
  show ?thesis
    using 1 2 by blast
qed

theorem unsubscribed_callback_not_called_witness:
  "closures_allocated
     \<lparr>matchMedia = LegacyOnly, prefersDark = False, queryLists = [], nextClosure = 0, calls = []\<rparr> \<and>
   7 \<notin> registered_callbacks
     \<lparr>matchMedia = LegacyOnly, prefersDark = False, queryLists = [], nextClosure = 0, calls = []\<rparr> \<and>
   addColorSchemeListener 7
     \<lparr>matchMedia = LegacyOnly, prefersDark = False, queryLists = [], nextClosure = 0, calls = []\<rparr> =
     Inr (\<lparr>matchMedia = LegacyOnly, prefersDark = False, queryLists = [[(0, 7)]],
           nextClosure = Suc 0, calls = []\<rparr>,
          removeColorSchemeListener LegacyOnly 0 (0, 7)) \<and>
   calls (run [Change True]
     \<lparr>matchMedia = LegacyOnly, prefersDark = False, queryLists = [[(0, 7)]],
      nextClosure = Suc 0, calls = []\<rparr>) = [((0, 7), True)] \<and>
   invocations_of_callback 7
     (run [Change False, Subscribe 8, Change True]
        (removeColorSchemeListener LegacyOnly 0 (0, 7)
           (run [Change True]
              \<lparr>matchMedia = LegacyOnly, prefersDark = False, queryLists = [[(0, 7)]],
               nextClosure = Suc 0, calls = []\<rparr>))) = [((0, 7), True)]"
proof -
  let ?w0 = "\<lparr>matchMedia = LegacyOnly, prefersDark = False, queryLists = [], nextClosure = 0,
    calls = []\<rparr>"
  let ?w1 = "\<lparr>matchMedia = LegacyOnly, prefersDark = False, queryLists = [[(0, 7)]],
    nextClosure = Suc 0, calls = []\<rparr>"
  have a: "closures_allocated ?w0"
    by (simp add: closures_allocated_def)
  have f: "7 \<notin> registered_callbacks ?w0"
    by (simp add: registered_callbacks_def)
  have r: "addColorSchemeListener 7 ?w0 = Inr (?w1, removeColorSchemeListener LegacyOnly 0 (0, 7))"
    by (simp add: addColorSchemeListener_def addListener_def addEventListener_def Let_def)
  have c1: "calls (run [Change True] ?w1) = [((0, 7), True)]"
    by (simp add: dispatchChange_def)
  have "invocations_of_callback 7 (run [Change False, Subscribe 8, Change True]
      (removeColorSchemeListener LegacyOnly 0 (0, 7) (run [Change True] ?w1))) =
      invocations_of_callback 7 (run [Change True] ?w1)"
    using unsubscribed_callback_not_called [OF a r,
        of "[Change False, Subscribe 8, Change True]" "[Change True]"] f
    by simp
  then show ?thesis
    using a f r c1 by (simp add: invocations_of_callback_def)
qed

text \<open>
  Without that condition the callback can be called again: a callback registered twice
  is still called through its second registration after the function returned by the
  first has been called.
\<close>

theorem callback_called_after_unsubscribe_counterexample:
  "addColorSchemeListener 7
     \<lparr>matchMedia = Modern, prefersDark = False, queryLists = [], nextClosure = 0, calls = []\<rparr> =
     Inr (\<lparr>matchMedia = Modern, prefersDark = False, queryLists = [[(0, 7)]],
           nextClosure = 1, calls = []\<rparr>,
          removeColorSchemeListener Modern 0 (0, 7)) \<and>
   addColorSchemeListener 7
     \<lparr>matchMedia = Modern, prefersDark = False, queryLists = [[(0, 7)]], nextClosure = 1,
      calls = []\<rparr> =
     Inr (\<lparr>matchMedia = Modern, prefersDark = False, queryLists = [[(0, 7)], [(1, 7)]],
           nextClosure = 2, calls = []\<rparr>,
          removeColorSchemeListener Modern 1 (1, 7)) \<and>
   invocations_of_callback 7
     (removeColorSchemeListener Modern 0 (0, 7)
        \<lparr>matchMedia = Modern, prefersDark = False, queryLists = [[(0, 7)], [(1, 7)]],
         nextClosure = 2, calls = []\<rparr>) = [] \<and>
   invocations_of_callback 7
     (run [Change True]
        (removeColorSchemeListener Modern 0 (0, 7)
           \<lparr>matchMedia = Modern, prefersDark = False, queryLists = [[(0, 7)], [(1, 7)]],
            nextClosure = 2, calls = []\<rparr>)) = [((1, 7), True)]"
  by (simp add: addColorSchemeListener_def addEventListener_def Let_def
      removeColorSchemeListener_def removeEventListener_def dispatchChange_def
      invocations_of_callback_def)

section \<open>Properties of the course player\<close>

subsection \<open>Resolving the active lesson\<close>

text \<open>
  The catalog has two courses, whose lesson lists are not empty and refer to the lesson
  objects that the source creates. Their identifiers are not empty and are no names of
  \<open>Object.prototype\<close>.
\<close>

lemma catalog_cases:
  assumes "map_of catalog c = Some rs"
  shows "(c = str ''web-dev-101'' \<and> rs = [0, 1, 2]) \<or> (c = str ''javascript-basics'' \<and> rs = [3, 4])"
  using assms by (auto simp add: catalog_def split: if_splits)

lemma catalog_refs:
  assumes "map_of catalog c = Some rs"
  shows "rs \<noteq> []" and "\<forall>r \<in> set rs. r < length initialHeap"
  using catalog_cases [OF assms] by (auto simp add: initialHeap_def)

lemma catalog_keys_truthy:
  assumes "map_of catalog c = Some rs"
  shows "c \<noteq> []" and "c \<notin> set objectPrototypeKeys"
  using catalog_cases [OF assms] by (auto simp add: str_def objectPrototypeKeys_def)

lemma lessonsOf_catalog: "map_of catalog c = Some rs \<Longrightarrow> lessonsOf (Some c) = Arr rs"
  by (simp add: lessonsOf_def courseLessons_def propertyKey_def)

lemma catalog_intact_initial: "catalog_intact initial"
  by (simp add: catalog_intact_def initial_def)

text \<open>
  While the catalog is intact, a reference of the catalog leads to the lesson of the source.
\<close>

lemma intact_length: "catalog_intact w \<Longrightarrow> length initialHeap \<le> length (heap w)"
  unfolding catalog_intact_def
  by (metis length_take min.cobounded1)

lemma intact_deref:
  assumes "catalog_intact w" and "r < length initialHeap"
  shows "deref (heap w) r = Some (initialHeap ! r)"
proof -
  have "r < length (heap w)"
    using intact_length [OF assms(1)] assms(2) by simp
  moreover have "heap w ! r = take (length initialHeap) (heap w) ! r"
    using assms(2) by simp
  ultimately show ?thesis
    using assms(1) by (simp add: deref_def catalog_intact_def)
qed

lemma intact_hasId:
  assumes "catalog_intact w" and "r < length initialHeap"
  shows "hasId (heap w) lid r \<longleftrightarrow> lesson_id (initialHeap ! r) = lid"
  by (simp add: hasId_def intact_deref [OF assms])

lemma held_catalog:
  assumes "catalog_intact w" and "r < length initialHeap"
  shows "held (w\<lparr>activeLesson := Ref r\<rparr>) = Some (initialHeap ! r)"
  using intact_deref [OF assms] by (simp add: held_def)

lemma find_first:
  assumes "i < length rs" and "P (rs ! i)" and "\<forall>j<i. \<not> P (rs ! j)"
  shows "find P rs = Some (rs ! i)"
  using assms by (auto simp add: find_Some_iff)

lemma find_in_set: "find P xs = Some x \<Longrightarrow> x \<in> set xs"
  by (auto simp add: find_Some_iff)

text \<open>
  The effect on a course of the catalog: with a lesson identifier it looks the lesson up,
  without one it takes the first lesson.
\<close>

lemma useEffect_supplied:
  assumes "catalog_intact w" and "map_of catalog c = Some rs" and "courseId p = Some c"
    and "lessonId p = Some lid" and "lid \<noteq> []"
  shows "useEffect p w =
           Inr (w\<lparr>activeLesson :=
                    (case find (\<lambda>r. lesson_id (initialHeap ! r) = lid) rs of
                       None \<Rightarrow> Undefined | Some r \<Rightarrow> Ref r)\<rparr>)"
proof -
  have "find (hasId (heap w) lid) rs = find (\<lambda>r. lesson_id (initialHeap ! r) = lid) rs"
    using catalog_refs(2) [OF assms(2)] intact_hasId [OF assms(1)]
    by (intro find_cong) auto
  then show ?thesis
    using assms by (simp add: useEffect_def lessonsFind_def lessonsOf_catalog)
qed

lemma useEffect_default:
  assumes "map_of catalog c = Some rs" and "courseId p = Some c" and "\<not> truthy (lessonId p)"
  shows "useEffect p w = Inr (w\<lparr>activeLesson := Ref (hd rs)\<rparr>)"
  using assms catalog_refs(1) [OF assms(1)]
  by (cases rs)
    (simp_all add: useEffect_def lessonsFirst_def lessonsOf_catalog truthy_def split: option.splits)

text \<open>
  C1: for a course of the catalog, when navigation supplies a lesson identifier and the
  lesson at position \<open>i\<close> of the course's list is the first with that identifier, the
  effect makes that very element the active lesson; when no lesson identifier is supplied
  (it is \<open>undefined\<close> or empty), the effect makes the first lesson of the list the active
  lesson. For \<open>web-dev-101\<close> without a lesson identifier the active lesson has the
  identifier \<open>lesson-1\<close>.
\<close>

theorem useEffect_resolves_active_lesson:
  assumes "catalog_intact w" and "map_of catalog c = Some rs" and "courseId p = Some c"
  shows "(\<forall>lid i. lessonId p = Some lid \<and> lid \<noteq> [] \<and> i < length rs \<and>
            lesson_id (initialHeap ! (rs ! i)) = lid \<and>
            (\<forall>j<i. lesson_id (initialHeap ! (rs ! j)) \<noteq> lid) \<longrightarrow>
            useEffect p w = Inr (w\<lparr>activeLesson := Ref (rs ! i)\<rparr>) \<and>
            held (w\<lparr>activeLesson := Ref (rs ! i)\<rparr>) = Some (initialHeap ! (rs ! i))) \<and>
         (\<not> truthy (lessonId p) \<longrightarrow>
            rs \<noteq> [] \<and> useEffect p w = Inr (w\<lparr>activeLesson := Ref (hd rs)\<rparr>) \<and>
            held (w\<lparr>activeLesson := Ref (hd rs)\<rparr>) = Some (initialHeap ! hd rs)) \<and>
         (c = str ''web-dev-101'' \<and> lessonId p = None \<longrightarrow>
            (\<exists>w' l. useEffect p w = Inr w' \<and> held w' = Some l \<and> lesson_id l = str ''lesson-1''))"
proof (intro conjI allI impI)
  fix lid i
  assume a: "lessonId p = Some lid \<and> lid \<noteq> [] \<and> i < length rs \<and>
            lesson_id (initialHeap ! (rs ! i)) = lid \<and>
            (\<forall>j<i. lesson_id (initialHeap ! (rs ! j)) \<noteq> lid)"
  then have "find (\<lambda>r. lesson_id (initialHeap ! r) = lid) rs = Some (rs ! i)"
    by (intro find_first) auto
  then show "useEffect p w = Inr (w\<lparr>activeLesson := Ref (rs ! i)\<rparr>)"
    using useEffect_supplied [OF assms, of lid] a by simp
  have "rs ! i < length initialHeap"
    using catalog_refs(2) [OF assms(2)] a by simp
  then show "held (w\<lparr>activeLesson := Ref (rs ! i)\<rparr>) = Some (initialHeap ! (rs ! i))"
    by (rule held_catalog [OF assms(1)])
next
  assume "\<not> truthy (lessonId p)"
  then show "useEffect p w = Inr (w\<lparr>activeLesson := Ref (hd rs)\<rparr>)"
    by (rule useEffect_default [OF assms(2,3)])
  show "rs \<noteq> []"
    by (rule catalog_refs(1) [OF assms(2)])
  then have "hd rs < length initialHeap"
    using catalog_refs(2) [OF assms(2)] by simp
  then show "held (w\<lparr>activeLesson := Ref (hd rs)\<rparr>) = Some (initialHeap ! hd rs)"
    by (rule held_catalog [OF assms(1)])
next
  assume b: "c = str ''web-dev-101'' \<and> lessonId p = None"
  then have rs: "rs = [0, 1, 2]"
    using catalog_cases [OF assms(2)] by (auto simp add: str_def)
  have "useEffect p w = Inr (w\<lparr>activeLesson := Ref (hd rs)\<rparr>)"
    using b by (intro useEffect_default [OF assms(2,3)]) (simp add: truthy_def)
  moreover have "held (w\<lparr>activeLesson := Ref (hd rs)\<rparr>) = Some (initialHeap ! 0)"
    using held_catalog [OF assms(1), of 0] rs by (simp add: initialHeap_def)
  moreover have "lesson_id (initialHeap ! 0) = str ''lesson-1''"
    by (simp add: initialHeap_def)
  ultimately show "\<exists>w' l. useEffect p w = Inr w' \<and> held w' = Some l \<and> lesson_id l = str ''lesson-1''"
    by blast
qed

theorem useEffect_resolves_active_lesson_witness:
  "catalog_intact initial \<and> map_of catalog (str ''web-dev-101'') = Some [0, 1, 2] \<and>
   useEffect \<lparr>courseId = Some (str ''web-dev-101''), lessonId = Some (str ''lesson-2'')\<rparr> initial =
     Inr (initial\<lparr>activeLesson := Ref 1\<rparr>) \<and>
   useEffect \<lparr>courseId = Some (str ''web-dev-101''), lessonId = None\<rparr> initial =
     Inr (initial\<lparr>activeLesson := Ref 0\<rparr>) \<and>
   map_option lesson_id (held (initial\<lparr>activeLesson := Ref 0\<rparr>)) = Some (str ''lesson-1'')"
proof -
  have i: "catalog_intact initial"
    by (simp add: catalog_intact_def initial_def)
  have c: "map_of catalog (str ''web-dev-101'') = Some [0, 1, 2]"
    by (simp add: catalog_def)
  have "useEffect \<lparr>courseId = Some (str ''web-dev-101''), lessonId = Some (str ''lesson-2'')\<rparr> initial =
     Inr (initial\<lparr>activeLesson := Ref ([0, 1, 2] ! 1)\<rparr>)"
    using useEffect_resolves_active_lesson [OF i c,
        of "\<lparr>courseId = Some (str ''web-dev-101''), lessonId = Some (str ''lesson-2'')\<rparr>",
        THEN conjunct1, rule_format, of "str ''lesson-2''" 1]
    by (simp add: initialHeap_def str_def)
  moreover have "useEffect \<lparr>courseId = Some (str ''web-dev-101''), lessonId = None\<rparr> initial =
     Inr (initial\<lparr>activeLesson := Ref 0\<rparr>) \<and>
     held (initial\<lparr>activeLesson := Ref 0\<rparr>) = Some (initialHeap ! 0)"
    using useEffect_resolves_active_lesson [OF i c,
        of "\<lparr>courseId = Some (str ''web-dev-101''), lessonId = None\<rparr>"]
    by (simp add: truthy_def)
  ultimately show ?thesis
    using i c by (simp add: initialHeap_def)
qed

subsection \<open>The views for what is not found\<close>

text \<open>
  C2: the course identifier \<open>constructor\<close> is no course of the catalog, but
  \<open>courseLessons['constructor']\<close> is the function that the object literal inherits, a
  truthy value. Mounted at this course, the component renders the view for a lesson that
  is not found, not the one for a course that is not found; with a lesson identifier its
  effect raises a TypeError besides, since the function has no \<open>find\<close>.
\<close>

theorem navigate_inherited_course_raises:
  "map_of catalog (str ''constructor'') = None \<and>
   render \<lparr>courseId = Some (str ''constructor''), lessonId = Some (str ''lesson-1'')\<rparr> initial =
     Inr LessonNotFound \<and>
   useEffect \<lparr>courseId = Some (str ''constructor''), lessonId = Some (str ''lesson-1'')\<rparr> initial =
     Inl TypeError \<and>
   navigate \<lparr>courseId = Some (str ''constructor''), lessonId = Some (str ''lesson-1'')\<rparr> initial =
     Inl TypeError \<and>
   navigate \<lparr>courseId = Some (str ''constructor''), lessonId = None\<rparr> initial =
     Inr (LessonNotFound, initial\<lparr>activeLesson := Undefined\<rparr>)"
proof -
  have k: "str ''constructor'' \<in> set objectPrototypeKeys"
    by (simp add: objectPrototypeKeys_def)
  have m: "map_of catalog (str ''constructor'') = None"
    by (simp add: catalog_def str_def)
  have c: "courseLessons (Some (str ''constructor'')) = Inherited"
    using k m by (simp add: courseLessons_def propertyKey_def)
  have t: "truthy (Some (str ''constructor''))" "truthy (Some (str ''lesson-1''))"
    by (simp_all add: truthy_def str_def)
  have r: "render \<lparr>courseId = Some (str ''constructor''), lessonId = Some (str ''lesson-1'')\<rparr> initial =
     Inr LessonNotFound"
    using c t by (simp add: render_def initial_def)
  have e: "useEffect \<lparr>courseId = Some (str ''constructor''), lessonId = Some (str ''lesson-1'')\<rparr> initial =
     Inl TypeError"
    using c by (simp add: useEffect_def lessonsFind_def lessonsOf_def str_def)
  have r': "render \<lparr>courseId = Some (str ''constructor''), lessonId = None\<rparr> w =
     Inr LessonNotFound" if "activeLesson w = Null \<or> activeLesson w = Undefined" for w
    using c t that by (auto simp add: render_def)
  have e': "useEffect \<lparr>courseId = Some (str ''constructor''), lessonId = None\<rparr> initial =
     Inr (initial\<lparr>activeLesson := Undefined\<rparr>)"
    using c by (simp add: useEffect_def lessonsFirst_def lessonsOf_def)
  have "navigate \<lparr>courseId = Some (str ''constructor''), lessonId = None\<rparr> initial =
     Inr (LessonNotFound, initial\<lparr>activeLesson := Undefined\<rparr>)"
    using e' by (simp add: navigate_def r' initial_def)
  then show ?thesis
    using m r e by (simp add: navigate_def)
qed

theorem navigate_inherited_course_raises_witness:
  "navigate \<lparr>courseId = Some (str ''constructor''), lessonId = Some (str ''lesson-1'')\<rparr> initial \<noteq>
     Inr (CourseNotFound, initial\<lparr>activeLesson := Undefined\<rparr>)"
  using navigate_inherited_course_raises by simp

text \<open>
  For every course identifier that is no name of \<open>Object.prototype\<close> the two views are
  as specified, from every state and without an exception: a course that the catalog
  lacks gives the view for a course that is not found, and a lesson identifier that
  matches no lesson of a course of the catalog gives the view for a lesson that is not
  found.
\<close>

lemma absent_course:
  assumes "\<not> truthy cid \<or> map_of catalog (propertyKey cid) = None"
    and "propertyKey cid \<notin> set objectPrototypeKeys"
  shows "\<not> truthy cid \<or> courseLessons cid = Absent"
  using assms by (auto simp add: courseLessons_def)

lemma navigate_course_not_found:
  assumes "\<not> truthy (courseId p) \<or> map_of catalog (propertyKey (courseId p)) = None"
    and "propertyKey (courseId p) \<notin> set objectPrototypeKeys"
  shows "navigate p w = Inr (CourseNotFound, w\<lparr>activeLesson := Undefined\<rparr>)"
proof -
  have r: "\<And>w. render p w = Inr CourseNotFound"
    using absent_course [OF assms] by (auto simp add: render_def)
  have "map_of catalog (propertyKey (courseId p)) = None"
  proof (cases "courseId p")
    case None
    then show ?thesis by (simp add: propertyKey_def catalog_def str_def)
  next
    case (Some c)
    show ?thesis
    proof (cases "c = []")
      case True
      with Some show ?thesis by (simp add: propertyKey_def catalog_def str_def)
    next
      case False
      with Some assms(1) show ?thesis by (simp add: truthy_def)
    qed
  qed
  then have "lessonsOf (courseId p) = Arr []"
    using assms(2) by (simp add: lessonsOf_def courseLessons_def)
  then have "useEffect p w = Inr (w\<lparr>activeLesson := Undefined\<rparr>)"
    by (simp add: useEffect_def lessonsFind_def lessonsFirst_def split: option.splits)
  then show ?thesis
    by (simp add: navigate_def r)
qed

lemma render_catalog_course:
  assumes "map_of catalog c = Some rs" and "courseId p = Some c"
  shows "render p w = Inr (case activeLesson w of Ref r \<Rightarrow> Player r | _ \<Rightarrow> LessonNotFound)"
proof -
  have "truthy (Some c)"
    using catalog_keys_truthy(1) [OF assms(1)] by (simp add: truthy_def)
  moreover have "courseLessons (Some c) = OwnArray rs"
    using assms(1) by (simp add: courseLessons_def propertyKey_def)
  ultimately show ?thesis
    using assms(2) by (simp add: render_def lessonsOf_def split: lesson_ref.splits)
qed

lemma navigate_lesson_not_found:
  assumes "catalog_intact w" and "map_of catalog c = Some rs" and "courseId p = Some c"
    and "lessonId p = Some lid" and "lid \<noteq> []"
    and "\<forall>r \<in> set rs. lesson_id (initialHeap ! r) \<noteq> lid"
  shows "navigate p w = Inr (LessonNotFound, w\<lparr>activeLesson := Undefined\<rparr>)"
proof -
  have "find (\<lambda>r. lesson_id (initialHeap ! r) = lid) rs = None"
    using assms(6) by (simp add: find_None_iff)
  then have "useEffect p w = Inr (w\<lparr>activeLesson := Undefined\<rparr>)"
    using useEffect_supplied [OF assms(1-5)] by simp
  then show ?thesis
    by (simp add: navigate_def render_catalog_course [OF assms(2,3)] split: lesson_ref.splits)
qed

subsection \<open>Toggling completion\<close>

lemma handleLessonComplete_held:
  assumes "held w = Some l"
  shows "\<exists>w'. handleLessonComplete w = Inr w' \<and>
           held w' = Some (l\<lparr>isCompleted := \<not> isCompleted l\<rparr>)"
  using assms
  by (auto simp add: held_def handleLessonComplete_def deref_def
      split: lesson_ref.splits if_splits)

text \<open>
  C4: when the view holds a lesson, a toggle succeeds and the lesson held afterwards is
  the same lesson with its completion flag negated; a second toggle succeeds as well and
  the lesson held after it has the original flag, and is equal to the original lesson in
  every field.
\<close>

theorem handleLessonComplete_involution:
  assumes "held w = Some l"
  shows "\<exists>w' w''. handleLessonComplete w = Inr w' \<and>
           held w' = Some (l\<lparr>isCompleted := \<not> isCompleted l\<rparr>) \<and>
           handleLessonComplete w' = Inr w'' \<and> held w'' = Some l"
proof -
  obtain w' where 1: "handleLessonComplete w = Inr w'"
    and 2: "held w' = Some (l\<lparr>isCompleted := \<not> isCompleted l\<rparr>)"
    using handleLessonComplete_held [OF assms] by blast
  obtain w'' where 3: "handleLessonComplete w' = Inr w''"
    and 4: "held w'' = Some (l\<lparr>isCompleted := \<not> isCompleted l, isCompleted := \<not> \<not> isCompleted l\<rparr>)"
    using handleLessonComplete_held [OF 2] by auto
  from 4 have "held w'' = Some l" by simp
  with 1 2 3 show ?thesis by blast
qed

theorem handleLessonComplete_involution_witness:
  "held (initial\<lparr>activeLesson := Ref 1\<rparr>) = Some (initialHeap ! 1) \<and>
   \<not> isCompleted (initialHeap ! 1) \<and>
   (\<exists>w' w''. handleLessonComplete (initial\<lparr>activeLesson := Ref 1\<rparr>) = Inr w' \<and>
      map_option isCompleted (held w') = Some True \<and>
      handleLessonComplete w' = Inr w'' \<and>
      map_option isCompleted (held w'') = Some False)"
proof -
  have h: "held (initial\<lparr>activeLesson := Ref 1\<rparr>) = Some (initialHeap ! 1)"
    by (simp add: held_def deref_def initial_def initialHeap_def)
  have f: "\<not> isCompleted (initialHeap ! 1)"
    by (simp add: initialHeap_def)
  obtain w' w'' where "handleLessonComplete (initial\<lparr>activeLesson := Ref 1\<rparr>) = Inr w'"
    and "held w' = Some ((initialHeap ! 1)\<lparr>isCompleted := \<not> isCompleted (initialHeap ! 1)\<rparr>)"
    and "handleLessonComplete w' = Inr w''" and "held w'' = Some (initialHeap ! 1)"
    using handleLessonComplete_involution [OF h] by blast
  then show ?thesis
    using h f by auto
qed

text \<open>
  A toggle allocates one lesson object and changes none; the effect allocates nothing and
  makes a lesson object of the catalog the active lesson, if any.
\<close>

lemma handleLessonComplete_heap:
  assumes "handleLessonComplete w = Inr w'"
  shows "\<exists>l. heap w' = heap w @ [l]"
  using assms
  by (auto simp add: handleLessonComplete_def split: lesson_ref.splits option.splits)

lemma catalog_intact_append: "catalog_intact w \<Longrightarrow> heap w' = heap w @ ls \<Longrightarrow> catalog_intact w'"
  unfolding catalog_intact_def
  by (metis append_eq_conv_conj append_take_drop_id length_take min.absorb2 nat_le_linear take_all take_append)

lemma useEffect_heap: "useEffect p w = Inr w' \<Longrightarrow> heap w' = heap w"
  by (auto simp add: useEffect_def split: sum.splits)

lemma lessonsOf_Arr:
  assumes "lessonsOf cid = Arr rs"
  shows "\<forall>r \<in> set rs. r < length initialHeap"
proof (cases "map_of catalog (propertyKey cid)")
  case None
  then have "rs = []"
    using assms by (auto simp add: lessonsOf_def courseLessons_def split: if_splits)
  then show ?thesis by simp
next
  case (Some rs')
  then have "rs = rs'"
    using assms by (simp add: lessonsOf_def courseLessons_def)
  then show ?thesis
    using catalog_refs(2) [OF Some] by simp
qed

lemma useEffect_catalog_ref:
  assumes "useEffect p w = Inr w'" and "activeLesson w' = Ref r"
  shows "r < length initialHeap"
proof (cases "lessonsOf (courseId p)")
  case NotArray
  then show ?thesis
    using assms
    by (auto simp add: useEffect_def lessonsFind_def lessonsFirst_def split: if_splits option.splits)
next
  case (Arr rs)
  then have "r \<in> set rs"
    using assms
    by (auto simp add: useEffect_def lessonsFind_def lessonsFirst_def
        split: if_splits option.splits list.splits dest: find_in_set)
  then show ?thesis
    using lessonsOf_Arr [OF Arr] by simp
qed

lemma navigate_useEffect: "navigate p w = Inr (v, w') \<Longrightarrow> useEffect p w = Inr w'"
  by (auto simp add: navigate_def split: sum.splits)

lemma navigate_holds_catalog:
  assumes "catalog_intact w" and "navigate p w = Inr (v, w')"
  shows "catalog_intact w'"
    and "activeLesson w' = Ref r \<Longrightarrow> r < length initialHeap \<and> held w' = Some (initialHeap ! r)"
proof -
  have e: "useEffect p w = Inr w'"
    by (rule navigate_useEffect [OF assms(2)])
  then have "heap w' = heap w"
    by (rule useEffect_heap)
  with assms(1) show i: "catalog_intact w'"
    by (simp add: catalog_intact_def)
  assume a: "activeLesson w' = Ref r"
  then have "r < length initialHeap"
    by (rule useEffect_catalog_ref [OF e])
  then show "r < length initialHeap \<and> held w' = Some (initialHeap ! r)"
    using intact_deref [OF i] a by (simp add: held_def)
qed

text \<open>
  A render of the mounted component runs the effect when the parameters differ from
  those of the render before, and allocates nothing. With the same parameters of a course
  of the catalog the effect is skipped, and the view keeps the lesson it holds.
\<close>

lemma params_differ:
  "(q :: params) \<noteq> p \<Longrightarrow> courseId p \<noteq> courseId q \<or> lessonId p \<noteq> lessonId q"
  by (cases p, cases q) auto

lemma depsChanged_differ: "(q :: params) \<noteq> p \<Longrightarrow> depsChanged q p"
  using params_differ [of q p] by (auto simp add: depsChanged_def)

lemma rerender_changed: "depsChanged prev p \<Longrightarrow> rerender prev p w = navigate p w"
  by (simp add: rerender_def)

lemma rerender_heap: "rerender prev p w = Inr (v, w') \<Longrightarrow> heap w' = heap w"
  by (auto simp add: rerender_def split: if_splits sum.splits
      dest: navigate_useEffect useEffect_heap)

lemma rerender_same_params:
  assumes "map_of catalog c = Some rs" and "courseId p = Some c" and "activeLesson w = Ref r"
  shows "rerender p p w = Inr (Player r, w)"
proof -
  have "courseLessons (courseId p) = OwnArray rs"
    using assms(1,2) by (simp add: courseLessons_def propertyKey_def)
  then have "\<not> depsChanged p p"
    by (simp add: depsChanged_def)
  then show ?thesis
    using assms(3) by (simp add: rerender_def render_catalog_course [OF assms(1,2)])
qed

text \<open>
  C5: a toggle leaves every lesson object that exists unchanged in all its fields, the
  objects of the catalog among them: the flipped flag is in a new object that only the
  view holds. So the catalog stays intact, and after navigating away, to parameters that
  differ from those shown, and back, the active lesson is an object of the catalog with
  the content that the source gives it; so it is when the component is mounted anew.
\<close>

theorem handleLessonComplete_frame:
  assumes "handleLessonComplete w = Inr w'"
  shows "(\<forall>r < length (heap w). deref (heap w') r = deref (heap w) r) \<and>
         (catalog_intact w \<longrightarrow> catalog_intact w' \<and>
            (\<forall>p q v1 w1 v2 w2 r.
               q \<noteq> p \<and> rerender p q w' = Inr (v1, w1) \<and> rerender q p w1 = Inr (v2, w2) \<and>
               activeLesson w2 = Ref r \<longrightarrow>
               r < length initialHeap \<and> held w2 = Some (initialHeap ! r)) \<and>
            (\<forall>p v w2 r.
               navigate p (initial\<lparr>heap := heap w'\<rparr>) = Inr (v, w2) \<and>
               activeLesson w2 = Ref r \<longrightarrow>
               r < length initialHeap \<and> held w2 = Some (initialHeap ! r)))"
proof -
  obtain l where h: "heap w' = heap w @ [l]"
    using handleLessonComplete_heap [OF assms] by blast
  then have 1: "\<forall>r < length (heap w). deref (heap w') r = deref (heap w) r"
    by (simp add: deref_def nth_append)
  have 2: "catalog_intact w'" if "catalog_intact w"
    using that h by (rule catalog_intact_append)
  have 3: "r < length initialHeap \<and> held w2 = Some (initialHeap ! r)"
    if "catalog_intact w" and "q \<noteq> p" and "rerender p q w' = Inr (v1, w1)"
      and "rerender q p w1 = Inr (v2, w2)" and "activeLesson w2 = Ref r" for q p v1 w1 v2 w2 r
  proof -
    have "heap w1 = heap w'"
      using that(3) by (rule rerender_heap)
    then have "catalog_intact w1"
      using 2 [OF that(1)] by (simp add: catalog_intact_def)
    moreover have "navigate p w1 = Inr (v2, w2)"
      using that(4) rerender_changed [OF depsChanged_differ [OF that(2)]] by simp
    ultimately show ?thesis
      using that(5) by (rule navigate_holds_catalog(2))
  qed
  have 4: "r < length initialHeap \<and> held w2 = Some (initialHeap ! r)"
    if "catalog_intact w" and "navigate p (initial\<lparr>heap := heap w'\<rparr>) = Inr (v, w2)"
      and "activeLesson w2 = Ref r" for p v w2 r
  proof -
    have "catalog_intact (initial\<lparr>heap := heap w'\<rparr>)"
      using 2 [OF that(1)] by (simp add: catalog_intact_def)
    then show ?thesis
      using that(2,3) by (rule navigate_holds_catalog(2))
  qed
  show ?thesis
    using 1 2 3 4 by blast
qed

theorem handleLessonComplete_frame_witness:
  "handleLessonComplete (initial\<lparr>activeLesson := Ref 1\<rparr>) =
     Inr (initial\<lparr>heap := initialHeap @ [(initialHeap ! 1)\<lparr>isCompleted := True\<rparr>],
                   activeLesson := Ref 5\<rparr>) \<and>
   catalog_intact (initial\<lparr>activeLesson := Ref 1\<rparr>) \<and>
   map_option isCompleted
     (held (initial\<lparr>heap := initialHeap @ [(initialHeap ! 1)\<lparr>isCompleted := True\<rparr>],
                     activeLesson := Ref 5\<rparr>)) = Some True \<and>
   rerender \<lparr>courseId = Some (str ''web-dev-101''), lessonId = Some (str ''lesson-2'')\<rparr>
     \<lparr>courseId = Some (str ''web-dev-101''), lessonId = Some (str ''lesson-2'')\<rparr>
     (initial\<lparr>heap := initialHeap @ [(initialHeap ! 1)\<lparr>isCompleted := True\<rparr>],
              activeLesson := Ref 5\<rparr>) =
     Inr (Player 5,
          initial\<lparr>heap := initialHeap @ [(initialHeap ! 1)\<lparr>isCompleted := True\<rparr>],
                  activeLesson := Ref 5\<rparr>) \<and>
   rerender \<lparr>courseId = Some (str ''web-dev-101''), lessonId = Some (str ''lesson-2'')\<rparr>
     \<lparr>courseId = Some (str ''web-dev-101''), lessonId = Some (str ''lesson-3'')\<rparr>
     (initial\<lparr>heap := initialHeap @ [(initialHeap ! 1)\<lparr>isCompleted := True\<rparr>],
              activeLesson := Ref 5\<rparr>) =
     Inr (Player 2,
          initial\<lparr>heap := initialHeap @ [(initialHeap ! 1)\<lparr>isCompleted := True\<rparr>],
                  activeLesson := Ref 2\<rparr>) \<and>
   rerender \<lparr>courseId = Some (str ''web-dev-101''), lessonId = Some (str ''lesson-3'')\<rparr>
     \<lparr>courseId = Some (str ''web-dev-101''), lessonId = Some (str ''lesson-2'')\<rparr>
     (initial\<lparr>heap := initialHeap @ [(initialHeap ! 1)\<lparr>isCompleted := True\<rparr>],
              activeLesson := Ref 2\<rparr>) =
     Inr (Player 1,
          initial\<lparr>heap := initialHeap @ [(initialHeap ! 1)\<lparr>isCompleted := True\<rparr>],
                  activeLesson := Ref 1\<rparr>) \<and>
   map_option isCompleted
     (held (initial\<lparr>heap := initialHeap @ [(initialHeap ! 1)\<lparr>isCompleted := True\<rparr>],
                     activeLesson := Ref 1\<rparr>)) = Some False"
proof -
  let ?w = "initial\<lparr>activeLesson := Ref 1\<rparr>"
  let ?h = "initialHeap @ [(initialHeap ! 1)\<lparr>isCompleted := True\<rparr>]"
  let ?q = "\<lparr>courseId = Some (str ''web-dev-101''), lessonId = Some (str ''lesson-3'')\<rparr>"
  let ?p = "\<lparr>courseId = Some (str ''web-dev-101''), lessonId = Some (str ''lesson-2'')\<rparr>"
  have t: "handleLessonComplete ?w = Inr (initial\<lparr>heap := ?h, activeLesson := Ref 5\<rparr>)"
    by (simp add: handleLessonComplete_def deref_def initial_def initialHeap_def)
  have i: "catalog_intact ?w"
    by (simp add: catalog_intact_def initial_def)
  have c: "map_of catalog (str ''web-dev-101'') = Some [0, 1, 2]"
    by (simp add: catalog_def)
  have i': "catalog_intact (initial\<lparr>heap := ?h, activeLesson := a\<rparr>)" for a
    by (simp add: catalog_intact_def)
  have ne: "str ''lesson-3'' \<noteq> []" "str ''lesson-2'' \<noteq> []"
    by (simp_all add: str_def)
  have d: "?q \<noteq> ?p"
    by (simp add: str_def)
  have dc: "depsChanged ?p ?q" "depsChanged ?q ?p"
    by (simp_all add: depsChanged_def str_def)
  have e1: "useEffect ?q (initial\<lparr>heap := ?h, activeLesson := Ref 5\<rparr>) =
      Inr (initial\<lparr>heap := ?h, activeLesson := Ref 2\<rparr>)"
    using useEffect_supplied [OF i' c, of ?q "str ''lesson-3''" "Ref 5"] ne
    by (simp add: initialHeap_def str_def)
  have e2: "useEffect ?p (initial\<lparr>heap := ?h, activeLesson := Ref 2\<rparr>) =
      Inr (initial\<lparr>heap := ?h, activeLesson := Ref 1\<rparr>)"
    using useEffect_supplied [OF i' c, of ?p "str ''lesson-2''" "Ref 2"] ne
    by (simp add: initialHeap_def str_def)
  have n0: "rerender ?p ?p (initial\<lparr>heap := ?h, activeLesson := Ref 5\<rparr>) =
      Inr (Player 5, initial\<lparr>heap := ?h, activeLesson := Ref 5\<rparr>)"
    by (rule rerender_same_params [OF c]) simp_all
  have n1: "rerender ?p ?q (initial\<lparr>heap := ?h, activeLesson := Ref 5\<rparr>) =
      Inr (Player 2, initial\<lparr>heap := ?h, activeLesson := Ref 2\<rparr>)"
    using e1 dc(1) by (simp add: rerender_def navigate_def render_catalog_course [OF c])
  have n2: "rerender ?q ?p (initial\<lparr>heap := ?h, activeLesson := Ref 2\<rparr>) =
      Inr (Player 1, initial\<lparr>heap := ?h, activeLesson := Ref 1\<rparr>)"
    using e2 dc(2) by (simp add: rerender_def navigate_def render_catalog_course [OF c])
  have al: "activeLesson (initial\<lparr>heap := ?h, activeLesson := Ref 1\<rparr>) = Ref 1"
    by simp
  have "held (initial\<lparr>heap := ?h, activeLesson := Ref 1\<rparr>) = Some (initialHeap ! 1)"
    using handleLessonComplete_frame [OF t] i d n1 n2 al by blast
  moreover have "\<not> isCompleted (initialHeap ! 1)"
    by (simp add: initialHeap_def)
  moreover have "held (initial\<lparr>heap := ?h, activeLesson := Ref 5\<rparr>) =
      Some ((initialHeap ! 1)\<lparr>isCompleted := True\<rparr>)"
    by (simp add: held_def deref_def initialHeap_def)
  ultimately show ?thesis
    using t i n0 n1 n2 by simp
qed

subsection \<open>Posting a comment\<close>

text \<open>A string trims to the empty string exactly when it consists of white space only.\<close>

lemma trim_Nil_iff: "trim s = [] \<longleftrightarrow> (\<forall>c \<in> set s. isWhiteSpace c)"
proof
  assume "trim s = []"
  then have all: "\<forall>c \<in> set (dropWhile isWhiteSpace s). isWhiteSpace c"
    by (simp add: trim_def)
  have "dropWhile isWhiteSpace s = []"
  proof (cases "dropWhile isWhiteSpace s")
    case Nil
    then show ?thesis .
  next
    case (Cons c cs)
    then have "\<not> isWhiteSpace c"
      using hd_dropWhile [of isWhiteSpace s] by simp
    moreover have "isWhiteSpace c"
      using all Cons by simp
    ultimately show ?thesis by simp
  qed
  then show "\<forall>c \<in> set s. isWhiteSpace c"
    by simp
next
  assume "\<forall>c \<in> set s. isWhiteSpace c"
  then have "dropWhile isWhiteSpace s = []"
    by simp
  then show "trim s = []"
    by (simp only: trim_def rev.simps dropWhile.simps)
qed

text \<open>
  C3: when the text in the comment box has a character that is no white space, posting
  appends exactly one comment after the comments that are there: its text is the trimmed
  input (which is not empty), its author is \<open>Current User\<close>, its identifier is the
  decimal text of the clock reading and its timestamp the ISO text of the clock. When the
  text is empty or white space only, the list of comments stays as it is.
\<close>

theorem handlePostComment_appends_trimmed:
  "((\<exists>c \<in> set (newComment w). \<not> isWhiteSpace c) \<longrightarrow>
      comments (handlePostComment now isoNow w) =
        comments w @
          [\<lparr>comment_id = toString now, comment_user = str ''Current User'',
            comment_timestamp = isoNow, comment_text = trim (newComment w)\<rparr>] \<and>
      trim (newComment w) \<noteq> []) \<and>
   ((\<forall>c \<in> set (newComment w). isWhiteSpace c) \<longrightarrow>
      comments (handlePostComment now isoNow w) = comments w)"
  using trim_Nil_iff [of "newComment w"] by (auto simp add: handlePostComment_def)

theorem handlePostComment_appends_trimmed_witness:
  "(\<exists>c \<in> set (str '' hello ''). \<not> isWhiteSpace c) \<and>
   comments (handlePostComment 1700000000000 (str ''2023-11-14T22:13:20.000Z'')
       (initial\<lparr>newComment := str '' hello ''\<rparr>)) =
     [\<lparr>comment_id = str ''1700000000000'', comment_user = str ''Current User'',
       comment_timestamp = str ''2023-11-14T22:13:20.000Z'', comment_text = str ''hello''\<rparr>] \<and>
   list_all isWhiteSpace (str ''   '') \<and>
   comments (handlePostComment 1700000000000 (str ''2023-11-14T22:13:20.000Z'')
       (initial\<lparr>newComment := str ''   ''\<rparr>)) = []"
  using handlePostComment_appends_trimmed
    [of "initial\<lparr>newComment := str '' hello ''\<rparr>" 1700000000000 "str ''2023-11-14T22:13:20.000Z''"]
    handlePostComment_appends_trimmed
    [of "initial\<lparr>newComment := str ''   ''\<rparr>" 1700000000000 "str ''2023-11-14T22:13:20.000Z''"]
  by (simp add: initial_def str_def isWhiteSpace_def trim_def toString_def digits.simps)

text \<open>
  C10: posting a text that is empty or white space only leaves the whole state as it is,
  the comment box included. A successful post empties the comment box and leaves the
  notes, the active tab, the active lesson and the lesson objects as they are.
\<close>

theorem handlePostComment_frame:
  "((\<forall>c \<in> set (newComment w). isWhiteSpace c) \<longrightarrow> handlePostComment now isoNow w = w) \<and>
   ((\<exists>c \<in> set (newComment w). \<not> isWhiteSpace c) \<longrightarrow>
      newComment (handlePostComment now isoNow w) = [] \<and>
      notes_buf (handlePostComment now isoNow w) = notes_buf w \<and>
      activeTab (handlePostComment now isoNow w) = activeTab w \<and>
      activeLesson (handlePostComment now isoNow w) = activeLesson w \<and>
      heap (handlePostComment now isoNow w) = heap w)"
  using trim_Nil_iff [of "newComment w"] by (auto simp add: handlePostComment_def)

theorem handlePostComment_frame_witness:
  "list_all isWhiteSpace (str ''   '') \<and>
   handlePostComment 5 (str ''t'') (initial\<lparr>newComment := str ''   ''\<rparr>) =
     initial\<lparr>newComment := str ''   ''\<rparr> \<and>
   (\<exists>c \<in> set (str ''hi''). \<not> isWhiteSpace c) \<and>
   newComment (handlePostComment 5 (str ''t'')
      (initial\<lparr>newComment := str ''hi'', notes_buf := str ''n''\<rparr>)) = [] \<and>
   notes_buf (handlePostComment 5 (str ''t'')
      (initial\<lparr>newComment := str ''hi'', notes_buf := str ''n''\<rparr>)) = str ''n''"
  using handlePostComment_frame [of "initial\<lparr>newComment := str ''   ''\<rparr>" 5 "str ''t''"]
    handlePostComment_frame [of "initial\<lparr>newComment := str ''hi'', notes_buf := str ''n''\<rparr>" 5 "str ''t''"]
  by (simp add: initial_def str_def isWhiteSpace_def)

end
